theory Spec2Isabelle
  imports Main
begin

section \<open>Data model\<close>

text \<open>
  The plugin (\<^verbatim>\<open>src/main.ts\<close>) reads three attributes of a vault file: its \<^verbatim>\<open>name\<close>,
  its \<^verbatim>\<open>path\<close> and, through \<^verbatim>\<open>file.parent?.path\<close>, the path of its parent folder.
  \<^verbatim>\<open>parent\<close> is a folder or \<^verbatim>\<open>null\<close>. JavaScript strings are modelled as \<open>string\<close>.
\<close>

record folder =
  folder_path :: string

record tfile =
  name :: string
  path :: string
  parent :: "folder option"

text \<open>The expression \<^verbatim>\<open>file.parent?.path ?? ""\<close> of line 251.\<close>

definition parentPath :: "tfile \<Rightarrow> string" where
  "parentPath f = (case parent f of None \<Rightarrow> [] | Some d \<Rightarrow> folder_path d)"

text \<open>An element of the array \<^verbatim>\<open>findSyncConflicts\<close> returns.\<close>

record conflict_pair =
  originalFile :: tfile
  syncConflictFile :: tfile

text \<open>
  A thrown value; the plugin reads only its \<^verbatim>\<open>message\<close> (line 172).
\<close>

record js_error =
  message :: string

text \<open>
  What \<^verbatim>\<open>JSON.parse\<close> can return. A number is kept as the text JavaScript prints for it;
  an object as the list of its properties.
\<close>

datatype json =
  JNull | JBool bool | JNum string | JStr string | JArr "json list"
  | JObj "(string \<times> json) list"

datatype jsval = Undefined | Val json

text \<open>
  The part of \<^verbatim>\<open>app.vault\<close> the plugin uses: the array \<^verbatim>\<open>getMarkdownFiles()\<close> returns,
  \<^verbatim>\<open>adapter.read(path)\<close>, which returns the content or throws, and
  \<^verbatim>\<open>getAbstractFileByPath(p)\<close>, which returns a file or \<^verbatim>\<open>null\<close>. All three belong to the
  host application and are parameters here.
\<close>

record vault =
  getMarkdownFiles :: "tfile list"
  adapter_read :: "string \<Rightarrow> js_error + string"
  getAbstractFileByPath :: "jsval \<Rightarrow> tfile option"

text \<open>
  The state object handed to a comparison view (\<^verbatim>\<open>ViewState\<close>), with the fields
  the plugin sets. The only callback it ever passes resolves \<^verbatim>\<open>continuePromise\<close>.
\<close>

datatype callback = ResolveContinuePromise

record view_state =
  file1 :: tfile
  file2 :: tfile
  showMergeOption :: bool
  continueCallback :: "callback option"

datatype view_type = VIEW_TYPE_DIFFERENCES | OtherView string

record leaf =
  leaf_type :: view_type
  leaf_active :: bool
  leaf_state :: "view_state option"
  leaf_revealed :: bool

text \<open>A \<^verbatim>\<open>new Notice(message, timeout?)\<close> and a call of \<^verbatim>\<open>console.log\<close> or \<^verbatim>\<open>console.error\<close>.\<close>

type_synonym notice = "string \<times> nat option"

datatype console_arg =
  CStr string | CVal jsval | CFile "tfile option" | CErr js_error

datatype console_entry = ConsoleLog "console_arg list" | ConsoleError "console_arg list"

text \<open>Everything the plugin reads and writes outside its own variables.\<close>

record state =
  localStorage :: "string \<rightharpoonup> string"
  leaves :: "leaf list"
  viewLog :: "view_state list"
  notices :: "notice list"
  console :: "console_entry list"

text \<open>
  How an \<^verbatim>\<open>async\<close> function or a promise ends: resolved with a value, rejected with
  a thrown value, or never settled.
\<close>

datatype 'a promise = Resolved 'a | Rejected js_error | Pending

text \<open>
  What the risk-warning dialog does with the \<^verbatim>\<open>onAccept\<close> callback it is given: it
  calls it with \<^verbatim>\<open>null\<close> or with an error, or never calls it.
\<close>

datatype modal_behaviour = CallsOnAccept "js_error option" | NeverCallsOnAccept

section \<open>String operations of the matcher\<close>

text \<open>\<^verbatim>\<open>s.startsWith(p)\<close>, used to define \<^verbatim>\<open>s.includes(p)\<close>.\<close>

fun startsWith :: "string \<Rightarrow> string \<Rightarrow> bool" where
  "startsWith s [] = True"
| "startsWith [] (p # ps) = False"
| "startsWith (c # s) (p # ps) = (c = p \<and> startsWith s ps)"

text \<open>\<^verbatim>\<open>s.includes(p)\<close>: \<open>p\<close> occurs somewhere in \<open>s\<close>.\<close>

fun includes_str :: "string \<Rightarrow> string \<Rightarrow> bool" where
  "includes_str [] p = startsWith [] p"
| "includes_str (c # s) p = (startsWith (c # s) p \<or> includes_str s p)"

text \<open>
  The regular expression of line 247,
  \<^verbatim>\<open>/\.sync-conflict-\d{8}-\d{6}-[A-Z0-9]+/\<close>, has no flags: it is not anchored, it is
  case sensitive, \<^verbatim>\<open>\d\<close> is an ASCII digit, and \<^verbatim>\<open>replace\<close> rewrites the leftmost match
  only. The pattern is a sequence of pieces without alternatives, the only open-ended
  piece (\<^verbatim>\<open>[A-Z0-9]+\<close>, greedy) is the last one, so a match at a position is found
  by consuming the pieces in order. Each piece below returns the rest of the string
  after it, or \<open>None\<close> when it does not match.
\<close>

definition is_digit :: "char \<Rightarrow> bool" where
  "is_digit c = (c \<in> set ''0123456789'')"

definition is_token_char :: "char \<Rightarrow> bool" where
  "is_token_char c = (c \<in> set ''ABCDEFGHIJKLMNOPQRSTUVWXYZ0123456789'')"

fun lit :: "string \<Rightarrow> string \<Rightarrow> string option" where
  "lit [] s = Some s"
| "lit (p # ps) [] = None"
| "lit (p # ps) (c # s) = (if c = p then lit ps s else None)"

fun digits :: "nat \<Rightarrow> string \<Rightarrow> string option" where
  "digits 0 s = Some s"
| "digits (Suc n) [] = None"
| "digits (Suc n) (c # s) = (if is_digit c then digits n s else None)"

definition token :: "string \<Rightarrow> string option" where
  "token s = (if takeWhile is_token_char s = [] then None
              else Some (dropWhile is_token_char s))"

text \<open>A match of the whole pattern starting at the first character of \<open>s\<close>.\<close>

definition matchAt :: "string \<Rightarrow> string option" where
  "matchAt s =
     Option.bind (lit ''.sync-conflict-'' s) (\<lambda>s1.
     Option.bind (digits 8 s1) (\<lambda>s2.
     Option.bind (lit ''-'' s2) (\<lambda>s3.
     Option.bind (digits 6 s3) (\<lambda>s4.
     Option.bind (lit ''-'' s4) token))))"

text \<open>\<^verbatim>\<open>regex.test(s)\<close>: the pattern matches somewhere in \<open>s\<close>.\<close>

fun hasMatch :: "string \<Rightarrow> bool" where
  "hasMatch [] = (matchAt [] \<noteq> None)"
| "hasMatch (c # s) = (matchAt (c # s) \<noteq> None \<or> hasMatch s)"

text \<open>
  \<^verbatim>\<open>s.replace(regex, '')\<close>: the leftmost match is removed; a string without a match is
  returned unchanged.
\<close>

fun replace_pattern :: "string \<Rightarrow> string" where
  "replace_pattern [] = (case matchAt [] of Some r \<Rightarrow> r | None \<Rightarrow> [])"
| "replace_pattern (c # s) =
     (case matchAt (c # s) of Some r \<Rightarrow> r | None \<Rightarrow> c # replace_pattern s)"

section \<open>The matcher\<close>

text \<open>
  \<^verbatim>\<open>findSyncConflicts\<close> (lines 236-264). \<open>files\<close> is the array returned by the host call
  \<^verbatim>\<open>app.vault.getMarkdownFiles()\<close>; the \<^verbatim>\<open>for\<close> loop runs over it and pushes to
  \<^verbatim>\<open>syncConflicts\<close>, the accumulator \<open>acc\<close>.
\<close>

fun conflictLoop :: "tfile list \<Rightarrow> tfile list \<Rightarrow> conflict_pair list \<Rightarrow> conflict_pair list" where
  "conflictLoop files [] acc = acc"
| "conflictLoop files (f # rest) acc =
     (if includes_str (name f) ''sync-conflict'' then
        (let originalFileName = replace_pattern (name f) in
         case find (\<lambda>g. name g = originalFileName \<and> parentPath f = parentPath g) files of
           Some orig \<Rightarrow>
             conflictLoop files rest
               (acc @ [\<lparr>originalFile = orig, syncConflictFile = f\<rparr>])
         | None \<Rightarrow> conflictLoop files rest acc)
      else conflictLoop files rest acc)"

definition findSyncConflicts :: "vault \<Rightarrow> conflict_pair list" where
  "findSyncConflicts v = (let files = getMarkdownFiles v in conflictLoop files files [])"

section \<open>The comparison view\<close>

text \<open>
  \<^verbatim>\<open>openDifferencesView\<close> (lines 222-234) calls four operations of the host's workspace.
  The workspace is modelled as the list of its leaves; each operation does what the
  host documents for it: \<^verbatim>\<open>detachLeavesOfType\<close> removes every leaf of a view type,
  \<^verbatim>\<open>getLeaf(true)\<close> creates a new, empty leaf, \<^verbatim>\<open>setViewState\<close> sets the type, the active
  flag and the state of a leaf, \<^verbatim>\<open>revealLeaf\<close> brings a leaf to the foreground.
  A leaf is referred to by its position in the list. \<open>viewLog\<close> records the states
  passed to \<^verbatim>\<open>setViewState\<close>, in call order: the history of the views opened.
\<close>

definition detachLeavesOfType :: "view_type \<Rightarrow> state \<Rightarrow> state" where
  "detachLeavesOfType t st = st\<lparr>leaves := filter (\<lambda>l. leaf_type l \<noteq> t) (leaves st)\<rparr>"

definition emptyLeaf :: leaf where
  "emptyLeaf = \<lparr>leaf_type = OtherView ''empty'', leaf_active = False,
                leaf_state = None, leaf_revealed = False\<rparr>"

definition getLeaf :: "state \<Rightarrow> nat \<times> state" where
  "getLeaf st = (length (leaves st), st\<lparr>leaves := leaves st @ [emptyLeaf]\<rparr>)"

definition setViewState :: "nat \<Rightarrow> view_type \<Rightarrow> bool \<Rightarrow> view_state \<Rightarrow> state \<Rightarrow> state" where
  "setViewState i t a vs st =
     (if i < length (leaves st) then
        st\<lparr>leaves := (leaves st)[i := (leaves st ! i)
                        \<lparr>leaf_type := t, leaf_active := a, leaf_state := Some vs\<rparr>],
           viewLog := viewLog st @ [vs]\<rparr>
      else st)"

definition revealLeaf :: "nat \<Rightarrow> state \<Rightarrow> state" where
  "revealLeaf i st =
     (if i < length (leaves st) then
        st\<lparr>leaves := (leaves st)[i := (leaves st ! i)\<lparr>leaf_revealed := True\<rparr>]\<rparr>
      else st)"

definition openDifferencesView :: "view_state \<Rightarrow> state \<Rightarrow> state" where
  "openDifferencesView vs st =
     (let st1 = detachLeavesOfType VIEW_TYPE_DIFFERENCES st;
          (leaf, st2) = getLeaf st1;
          st3 = setViewState leaf VIEW_TYPE_DIFFERENCES True vs st2
      in revealLeaf leaf st3)"

text \<open>The leaves that show a comparison.\<close>

definition differencesLeaves :: "state \<Rightarrow> leaf list" where
  "differencesLeaves st = filter (\<lambda>l. leaf_type l = VIEW_TYPE_DIFFERENCES) (leaves st)"

section \<open>The acknowledgment gate and the sequential review\<close>

definition fileDiffMergeWarningKey :: string where
  "fileDiffMergeWarningKey = ''file-diff-merge-warning''"

text \<open>
  \<^verbatim>\<open>localStorage.getItem(key)\<close> is \<^verbatim>\<open>null\<close> or a string; as a condition it is true
  unless it is \<^verbatim>\<open>null\<close> or the empty string.
\<close>

definition truthyItem :: "string option \<Rightarrow> bool" where
  "truthyItem x = (case x of None \<Rightarrow> False | Some s \<Rightarrow> s \<noteq> [])"

text \<open>
  \<^verbatim>\<open>showRiskyActionModal\<close> (lines 201-220). The promise is rejected when the dialog
  calls \<^verbatim>\<open>onAccept\<close> with an error; it is resolved, after the flag is stored, when the
  dialog calls \<^verbatim>\<open>onAccept(null)\<close>; it stays pending when the dialog never calls
  \<^verbatim>\<open>onAccept\<close>. The 50 ms \<^verbatim>\<open>sleep\<close> has no effect on the state.
\<close>

definition showRiskyActionModal :: "modal_behaviour \<Rightarrow> state \<Rightarrow> unit promise \<times> state" where
  "showRiskyActionModal m st =
     (case m of
        CallsOnAccept (Some e) \<Rightarrow> (Rejected e, st)
      | CallsOnAccept None \<Rightarrow>
          (Resolved (),
           st\<lparr>localStorage := (localStorage st)(fileDiffMergeWarningKey \<mapsto> ''true'')\<rparr>)
      | NeverCallsOnAccept \<Rightarrow> (Pending, st))"

text \<open>The state object built for a pair at lines 104-110.\<close>

definition reviewState :: "conflict_pair \<Rightarrow> view_state" where
  "reviewState p = \<lparr>file1 = originalFile p, file2 = syncConflictFile p,
                     showMergeOption = True, continueCallback = Some ResolveContinuePromise\<rparr>"

text \<open>
  The \<^verbatim>\<open>for await\<close> loop of lines 102-117 over the array \<^verbatim>\<open>syncConflicts\<close>. \<open>answer i\<close>
  is what the view opened for the \<open>i\<close>-th pair passes to its \<^verbatim>\<open>continueCallback\<close>
  (\<open>None\<close>: the view never calls it, and \<^verbatim>\<open>await continuePromise\<close> never resumes).
\<close>

fun reviewLoop :: "(nat \<Rightarrow> bool option) \<Rightarrow> nat \<Rightarrow> conflict_pair list \<Rightarrow> state
                   \<Rightarrow> unit promise \<times> state" where
  "reviewLoop answer i [] st = (Resolved (), st)"
| "reviewLoop answer i (syncConflict # rest) st =
     (let st1 = openDifferencesView (reviewState syncConflict) st in
      case answer i of
        None \<Rightarrow> (Pending, st1)
      | Some shouldContinue \<Rightarrow>
          if \<not> shouldContinue then (Resolved (), st1)
          else reviewLoop answer (Suc i) rest st1)"

text \<open>The callback of the command \<^verbatim>\<open>find-sync-conflicts-and-merge\<close> (lines 91-118).\<close>

definition reviewAll :: "vault \<Rightarrow> (nat \<Rightarrow> bool option) \<Rightarrow> state \<Rightarrow> unit promise \<times> state" where
  "reviewAll v answer st = reviewLoop answer 0 (findSyncConflicts v) st"

definition find_sync_conflicts_and_merge ::
  "vault \<Rightarrow> modal_behaviour \<Rightarrow> (nat \<Rightarrow> bool option) \<Rightarrow> state \<Rightarrow> unit promise \<times> state" where
  "find_sync_conflicts_and_merge v m answer st =
     (if \<not> truthyItem (localStorage st fileDiffMergeWarningKey) then
        (case showRiskyActionModal m st of
           (Rejected e, st1) \<Rightarrow> (Rejected e, st1)
         | (Pending, st1) \<Rightarrow> (Pending, st1)
         | (Resolved u, st1) \<Rightarrow>
             if \<not> truthyItem (localStorage st1 fileDiffMergeWarningKey)
             then (Resolved (), st1)
             else reviewAll v answer st1)
      else reviewAll v answer st)"

section \<open>The indexed spec loader\<close>

definition DIFF_SPEC_BASE_PATH :: string where
  "DIFF_SPEC_BASE_PATH = ''temp/obsidian-diff/diff-spec-''"

text \<open>The decimal text of a loop index, as a template literal prints \<^verbatim>\<open>${i}\<close>.\<close>

fun show_nat :: "nat \<Rightarrow> string" where
  "show_nat n = (if n < 10 then [''0123456789'' ! n]
                 else show_nat (n div 10) @ [''0123456789'' ! (n mod 10)])"

declare show_nat.simps [simp del]

text \<open>
  Reading the property \<^verbatim>\<open>file1\<close> or \<^verbatim>\<open>file2\<close> of a parsed value: on \<^verbatim>\<open>null\<close> it throws a
  \<^verbatim>\<open>TypeError\<close>; on an object it gives the property or \<^verbatim>\<open>undefined\<close>; a boolean, a
  number, a string and an array have neither property.
\<close>

definition nullPropertyError :: "string \<Rightarrow> js_error" where
  "nullPropertyError k =
     \<lparr>message = ''Cannot read properties of null (reading '' @ [CHR 0x27] @ k @ [CHR 0x27] @ '')''\<rparr>"

fun get_field :: "json \<Rightarrow> string \<Rightarrow> js_error + jsval" where
  "get_field JNull k = Inl (nullPropertyError k)"
| "get_field (JObj kvs) k = Inr (case map_of kvs k of None \<Rightarrow> Undefined | Some x \<Rightarrow> Val x)"
| "get_field j k = Inr Undefined"

text \<open>How a template literal prints a value (\<^verbatim>\<open>${spec.file1}\<close>).\<close>

fun join_comma :: "string list \<Rightarrow> string" where
  "join_comma [] = []"
| "join_comma [x] = x"
| "join_comma (x # y # ys) = x @ '','' @ join_comma (y # ys)"

fun json_to_string :: "json \<Rightarrow> string" where
  "json_to_string JNull = ''null''"
| "json_to_string (JBool b) = (if b then ''true'' else ''false'')"
| "json_to_string (JNum s) = s"
| "json_to_string (JStr s) = s"
| "json_to_string (JArr xs) =
     join_comma (map (\<lambda>x. if x = JNull then [] else json_to_string x) xs)"
| "json_to_string (JObj kvs) = ''[object Object]''"

definition to_string :: "jsval \<Rightarrow> string" where
  "to_string x = (case x of Undefined \<Rightarrow> ''undefined'' | Val j \<Rightarrow> json_to_string j)"

definition newNotice :: "string \<Rightarrow> nat option \<Rightarrow> state \<Rightarrow> state" where
  "newNotice msg timeout st = st\<lparr>notices := notices st @ [(msg, timeout)]\<rparr>"

definition console_log :: "console_arg list \<Rightarrow> state \<Rightarrow> state" where
  "console_log args st = st\<lparr>console := console st @ [ConsoleLog args]\<rparr>"

definition console_error :: "console_arg list \<Rightarrow> state \<Rightarrow> state" where
  "console_error args st = st\<lparr>console := console st @ [ConsoleError args]\<rparr>"

text \<open>The two prefixes \<^verbatim>\<open>`File Diff Index ${i}`\<close> and \<^verbatim>\<open>`[File Diff Index ${i}]`\<close>.\<close>

definition noticeTag :: "nat \<Rightarrow> string" where
  "noticeTag i = ''File Diff Index '' @ show_nat i"

definition logTag :: "nat \<Rightarrow> string" where
  "logTag i = ''[File Diff Index '' @ show_nat i @ '']''"

text \<open>
  The \<^verbatim>\<open>try\<close> block of lines 127-170. It returns the value thrown, if any, and the
  state reached; the two early \<^verbatim>\<open>return\<close>s end it without a thrown value.
  \<open>parse\<close> is \<^verbatim>\<open>JSON.parse\<close>.
\<close>

definition tryBlock ::
  "nat \<Rightarrow> vault \<Rightarrow> (string \<Rightarrow> js_error + json) \<Rightarrow> state \<Rightarrow> js_error option \<times> state" where
  "tryBlock i v parse st =
     (let specPath = DIFF_SPEC_BASE_PATH @ show_nat i @ ''.json'';
          st1 = console_log [CStr (logTag i @ '' Reading spec from: '' @ specPath)] st;
          st2 = newNotice (noticeTag i @ '': Loading spec...'') None st1
      in case adapter_read v specPath of
           Inl e \<Rightarrow> (Some e, st2)
         | Inr specContent \<Rightarrow>
      (case parse specContent of
           Inl e \<Rightarrow> (Some e, st2)
         | Inr spec \<Rightarrow>
      (let st3 = console_log [CStr (logTag i @ '' Spec loaded:''), CVal (Val spec)] st2;
           st4 = newNotice (noticeTag i @ '': Files loaded'') None st3
       in case get_field spec ''file1'' of
            Inl e \<Rightarrow> (Some e, st4)
          | Inr path1 \<Rightarrow>
       (let f1 = getAbstractFileByPath v path1
        in case get_field spec ''file2'' of
            Inl e \<Rightarrow> (Some e, st4)
          | Inr path2 \<Rightarrow>
       (let f2 = getAbstractFileByPath v path2;
            st5 = console_log [CStr (logTag i @ '' file1:''), CFile f1] st4;
            st6 = console_log [CStr (logTag i @ '' file2:''), CFile f2] st5
        in case f1 of
             None \<Rightarrow>
               (None,
                console_error [CStr (logTag i @ '' File 1 not found:''), CVal path1]
                  (newNotice (noticeTag i @ '': ERROR - File 1 not found: '' @ to_string path1)
                     (Some 5000) st6))
           | Some file_1 \<Rightarrow>
        (case f2 of
             None \<Rightarrow>
               (None,
                console_error [CStr (logTag i @ '' File 2 not found:''), CVal path2]
                  (newNotice (noticeTag i @ '': ERROR - File 2 not found: '' @ to_string path2)
                     (Some 5000) st6))
           | Some file_2 \<Rightarrow>
        (let st7 = newNotice (noticeTag i @ '': Opening diff view...'') None st6;
             st8 = openDifferencesView
                     \<lparr>file1 = file_1, file2 = file_2, showMergeOption = False,
                      continueCallback = None\<rparr> st7;
             st9 = console_log [CStr (logTag i @ '' Diff view opened successfully'')] st8
         in (None, newNotice (noticeTag i @ '': Success!'') (Some 3000) st9))))))))"

text \<open>The \<^verbatim>\<open>catch\<close> block of lines 171-174.\<close>

definition catchBlock :: "nat \<Rightarrow> js_error \<Rightarrow> state \<Rightarrow> state" where
  "catchBlock i error st =
     console_error [CStr (logTag i @ '' Failed:''), CErr error]
       (newNotice (noticeTag i @ '': ERROR - '' @ message error) (Some 5000) st)"

text \<open>
  The callback of the command \<^verbatim>\<open>compare-indexed-${i}\<close> (lines 126-175); the loop of
  line 122 registers it for \<open>i\<close> from 0 to 9.
\<close>

definition compare_indexed ::
  "nat \<Rightarrow> vault \<Rightarrow> (string \<Rightarrow> js_error + json) \<Rightarrow> state \<Rightarrow> unit promise \<times> state" where
  "compare_indexed i v parse st =
     (case tryBlock i v parse st of
        (Some error, st1) \<Rightarrow> (Resolved (), catchBlock i error st1)
      | (None, st1) \<Rightarrow> (Resolved (), st1))"

section \<open>Predicates of the specification\<close>

text \<open>
  The specification describes the tag of a sync-conflict file as
  \<^verbatim>\<open>.sync-conflict-<8 digits>-<6 digits>-<uppercase alphanumeric token>\<close>. \<open>conflictTag s\<close>
  says that the whole of \<open>s\<close> is such a tag: 15 characters of marker, 8 digits, a dash,
  6 digits, a dash, and a token of at least one character.
\<close>

definition conflictTag :: "string \<Rightarrow> bool" where
  "conflictTag s =
     (31 < length s \<and> take 15 s = ''.sync-conflict-''
      \<and> list_all is_digit (take 8 (drop 15 s)) \<and> s ! 23 = CHR ''-''
      \<and> list_all is_digit (take 6 (drop 24 s)) \<and> s ! 30 = CHR ''-''
      \<and> list_all is_token_char (drop 31 s))"

text \<open>
  In the specification's words the candidate name is obtained "by removing a suffix
  matching the pattern": \<open>removesSuffix n r\<close> says that \<open>r\<close> is \<open>n\<close> without a trailing tag.
\<close>

definition removesSuffix :: "string \<Rightarrow> string \<Rightarrow> bool" where
  "removesSuffix n r = (take (length r) n = r \<and> conflictTag (drop (length r) n))"

section \<open>Example inputs\<close>

text \<open>A file at the root of the vault, and a host that resolves a path among given files.\<close>

definition rootFile :: "string \<Rightarrow> tfile" where
  "rootFile n = \<lparr>name = n, path = n, parent = Some \<lparr>folder_path = ''/''\<rparr>\<rparr>"

definition noSuchFile :: "string \<Rightarrow> js_error + string" where
  "noSuchFile p = Inl \<lparr>message = ''ENOENT: no such file or directory''\<rparr>"

definition resolveIn :: "tfile list \<Rightarrow> jsval \<Rightarrow> tfile option" where
  "resolveIn fs p = (case p of Val (JStr s) \<Rightarrow> find (\<lambda>f. path f = s) fs | _ \<Rightarrow> None)"

definition vaultOf :: "tfile list \<Rightarrow> tfile list \<Rightarrow> vault" where
  "vaultOf markdown others =
     \<lparr>getMarkdownFiles = markdown, adapter_read = noSuchFile,
      getAbstractFileByPath = resolveIn (markdown @ others)\<rparr>"

definition emptyState :: state where
  "emptyState = \<lparr>localStorage = Map.empty, leaves = [], viewLog = [], notices = [],
                 console = []\<rparr>"

text \<open>A note whose name contains the marker but no tag.\<close>

definition markerNote :: tfile where
  "markerNote = rootFile ''sync-conflict-notes.md''"

text \<open>A note and a conflict copy of it, as the sync tool names it.\<close>

definition notesFile :: tfile where
  "notesFile = rootFile ''Notes.md''"

definition notesConflict :: tfile where
  "notesConflict = rootFile ''Notes.sync-conflict-20240101-120000-ABC123.md''"

definition todoFile :: tfile where
  "todoFile = rootFile ''Todo.md''"

definition todoConflict :: tfile where
  "todoConflict = rootFile ''Todo.sync-conflict-20240102-090000-XYZ7890.md''"

text \<open>A file that is not a markdown file, and a conflict copy of it.\<close>

definition sheetFile :: tfile where
  "sheetFile = rootFile ''Sheet.csv''"

definition sheetConflict :: tfile where
  "sheetConflict = rootFile ''Sheet.sync-conflict-20240101-120000-ABC123.csv''"

text \<open>A vault with two notes and a conflict copy of each.\<close>

definition reviewVault :: vault where
  "reviewVault = vaultOf [notesFile, notesConflict, todoFile, todoConflict] []"

text \<open>Views that always ask to continue, and views that ask to stop at pair \<open>n\<close>.\<close>

definition alwaysContinue :: "nat \<Rightarrow> bool option" where
  "alwaysContinue k = Some True"

definition stopAt :: "nat \<Rightarrow> nat \<Rightarrow> bool option" where
  "stopAt n k = Some (k \<noteq> n)"

definition dialogError :: js_error where
  "dialogError = \<lparr>message = ''dialog failed''\<rparr>"

text \<open>
  The spec file of index 3 names \<^verbatim>\<open>a.md\<close>, which exists, and \<^verbatim>\<open>b.md\<close>, which does not.
  \<open>parseExample\<close> is \<^verbatim>\<open>JSON.parse\<close> on the three texts used here.
\<close>

definition spec3Content :: string where
  \<open>spec3Content = ''{"file1": "a.md", "file2": "b.md"}''\<close>

definition jsonSyntaxError :: js_error where
  "jsonSyntaxError = \<lparr>message = ''Unexpected end of JSON input''\<rparr>"

definition parseExample :: "string \<Rightarrow> js_error + json" where
  "parseExample s =
     (if s = spec3Content then Inr (JObj [(''file1'', JStr ''a.md''), (''file2'', JStr ''b.md'')])
      else if s = ''null'' then Inr JNull
      else if s = ''{}'' then Inr (JObj [])
      else Inl jsonSyntaxError)"







text \<open>Hosts whose spec file holds the text \<^verbatim>\<open>null\<close>, respectively \<^verbatim>\<open>{}\<close>.\<close>

definition readNull :: "string \<Rightarrow> js_error + string" where
  "readNull p = Inr ''null''"

definition readEmptyObject :: "string \<Rightarrow> js_error + string" where
  "readEmptyObject p = Inr ''{}''"

definition nullSpecVault :: vault where
  "nullSpecVault = \<lparr>getMarkdownFiles = [], adapter_read = readNull,
                     getAbstractFileByPath = resolveIn []\<rparr>"

definition emptySpecVault :: vault where
  "emptySpecVault = \<lparr>getMarkdownFiles = [], adapter_read = readEmptyObject,
                      getAbstractFileByPath = resolveIn []\<rparr>"

section \<open>Properties of the pattern\<close>

text \<open>
  What each piece of the pattern consumes, and hence what a match is: a successful
  \<open>matchAt\<close> splits the string into a tag and the rest, and the rest does not begin
  with a token character (the token is greedy).
\<close>

lemma lit_Some: "lit p s = Some r \<Longrightarrow> s = p @ r"
  by (induction p s rule: lit.induct) (auto split: if_splits)

lemma digits_Some:
  "digits n s = Some r \<Longrightarrow> \<exists>d. s = d @ r \<and> length d = n \<and> list_all is_digit d"
proof (induction n s rule: digits.induct)
  case (1 s)
  then show ?case by simp
next
  case (2 n)
  then show ?case by simp
next
  case (3 n c s)
  then obtain d where "s = d @ r" "length d = n" "list_all is_digit d" "is_digit c"
    by (auto split: if_splits)
  then have "c # s = (c # d) @ r \<and> length (c # d) = Suc n \<and> list_all is_digit (c # d)"
    by simp
  then show ?case by blast
qed

lemma token_Some:
  "token s = Some r \<Longrightarrow>
     \<exists>t. s = t @ r \<and> t \<noteq> [] \<and> list_all is_token_char t \<and> (r = [] \<or> \<not> is_token_char (hd r))"
proof -
  assume a: "token s = Some r"
  let ?t = "takeWhile is_token_char s"
  from a have t: "?t \<noteq> []" and r: "r = dropWhile is_token_char s"
    by (auto simp: token_def split: if_splits)
  have "s = ?t @ r" using r by simp
  moreover have "list_all is_token_char ?t"
    by (simp add: list_all_iff) (meson set_takeWhileD)
  moreover have "r = [] \<or> \<not> is_token_char (hd r)"
    using r hd_dropWhile[of is_token_char s] by auto
  ultimately show ?thesis using t by blast
qed

lemma matchAt_Some:
  assumes "matchAt s = Some r"
  shows "\<exists>seg. s = seg @ r \<and> conflictTag seg \<and> (r = [] \<or> \<not> is_token_char (hd r))"
proof -
  from assms obtain s1 s2 s3 s4 s5 where
    1: "lit ''.sync-conflict-'' s = Some s1" and 2: "digits 8 s1 = Some s2"
    and 3: "lit ''-'' s2 = Some s3" and 4: "digits 6 s3 = Some s4"
    and 5: "lit ''-'' s4 = Some s5" and 6: "token s5 = Some r"
    by (auto simp: matchAt_def Option.bind_eq_Some_conv)
  from digits_Some[OF 2] obtain d8 where d8: "s1 = d8 @ s2" "length d8 = 8" "list_all is_digit d8"
    by blast
  from digits_Some[OF 4] obtain d6 where d6: "s3 = d6 @ s4" "length d6 = 6" "list_all is_digit d6"
    by blast
  from token_Some[OF 6] obtain t where t: "s5 = t @ r" "t \<noteq> []" "list_all is_token_char t"
    "r = [] \<or> \<not> is_token_char (hd r)" by blast
  let ?seg = "''.sync-conflict-'' @ d8 @ ''-'' @ d6 @ ''-'' @ t"
  have s: "s = ?seg @ r"
    using lit_Some[OF 1] lit_Some[OF 3] lit_Some[OF 5] d8 d6 t by simp
  have "conflictTag ?seg"
    using d8 d6 t by (simp add: conflictTag_def nth_append)
  with s t(4) show ?thesis by blast
qed

lemma matchAt_startsWith: "matchAt s \<noteq> None \<Longrightarrow> startsWith s ''.sync-conflict-''"
proof -
  assume "matchAt s \<noteq> None"
  then obtain s1 where "lit ''.sync-conflict-'' s = Some s1"
    by (auto simp: matchAt_def Option.bind_eq_Some_conv)
  from lit_Some[OF this] show ?thesis by simp
qed

lemma startsWith_append: "startsWith s (p @ q) \<Longrightarrow> startsWith s p"
  by (induction s p rule: startsWith.induct) auto

lemma hasMatch_includes: "hasMatch n \<Longrightarrow> includes_str n ''sync-conflict''"
proof (induction n)
  case Nil
  then show ?case using matchAt_startsWith[of "[]"] by simp
next
  case (Cons c n)
  show ?case
  proof (cases "matchAt (c # n) \<noteq> None")
    case True
    from matchAt_startsWith[OF this] have "startsWith n ''sync-conflict-''" by simp
    then have "startsWith n (''sync-conflict'' @ ''-'')" by simp
    then have "startsWith n ''sync-conflict''" by (rule startsWith_append)
    then have "includes_str n ''sync-conflict''" by (cases n) auto
    then show ?thesis by simp
  next
    case False
    with Cons show ?thesis by simp
  qed
qed

lemma replace_pattern_decomp:
  "hasMatch n \<Longrightarrow>
     \<exists>pre seg post. n = pre @ seg @ post \<and> conflictTag seg \<and> replace_pattern n = pre @ post
       \<and> (\<forall>k<length pre. matchAt (drop k n) = None)
       \<and> (post = [] \<or> \<not> is_token_char (hd post))"
proof (induction n)
  case Nil
  then obtain r where "matchAt [] = Some r" by auto
  from matchAt_Some[OF this] show ?case by (auto simp: conflictTag_def)
next
  case (Cons c n)
  show ?case
  proof (cases "matchAt (c # n)")
    case (Some r)
    from matchAt_Some[OF this] obtain seg where
      "c # n = [] @ seg @ r" "conflictTag seg" "r = [] \<or> \<not> is_token_char (hd r)" by auto
    moreover have "replace_pattern (c # n) = [] @ r" using Some by simp
    ultimately show ?thesis by (metis list.size(3) not_less_zero)
  next
    case None
    with Cons.prems have "hasMatch n" by simp
    from Cons.IH[OF this] obtain pre seg post where
      p: "n = pre @ seg @ post" "conflictTag seg" "replace_pattern n = pre @ post"
         "\<forall>k<length pre. matchAt (drop k n) = None" "post = [] \<or> \<not> is_token_char (hd post)"
      by blast
    have a: "c # n = (c # pre) @ seg @ post" using p(1) by simp
    have b: "replace_pattern (c # n) = (c # pre) @ post" using None p(3) by simp
    have d: "\<forall>k<length (c # pre). matchAt (drop k (c # n)) = None"
    proof (intro allI impI)
      fix k assume "k < length (c # pre)"
      then show "matchAt (drop k (c # n)) = None"
        using None p(4) by (cases k) auto
    qed
    from a b d p(2) p(5) show ?thesis by blast
  qed
qed

section \<open>Properties of the matcher\<close>

text \<open>
  Every pair that \<^verbatim>\<open>findSyncConflicts\<close> returns has both files in the array of markdown
  files; the name of the conflict file contains the marker; the name of the original is
  the name of the conflict file after the replacement; the two parent paths agree.
\<close>

lemma conflictLoop_sound:
  "p \<in> set (conflictLoop files rest acc) \<Longrightarrow>
     p \<in> set acc \<or>
     (syncConflictFile p \<in> set rest \<and> originalFile p \<in> set files
      \<and> includes_str (name (syncConflictFile p)) ''sync-conflict''
      \<and> name (originalFile p) = replace_pattern (name (syncConflictFile p))
      \<and> parentPath (syncConflictFile p) = parentPath (originalFile p))"
proof (induction rest arbitrary: acc)
  case Nil
  then show ?case by simp
next
  case (Cons f rest)
  show ?case
  proof (cases "includes_str (name f) ''sync-conflict''")
    case False
    with Cons.prems have "p \<in> set (conflictLoop files rest acc)" by simp
    from Cons.IH[OF this] show ?thesis by auto
  next
    case True
    show ?thesis
    proof (cases "find (\<lambda>g. name g = replace_pattern (name f) \<and> parentPath f = parentPath g) files")
      case None
      with True Cons.prems have "p \<in> set (conflictLoop files rest acc)" by simp
      from Cons.IH[OF this] show ?thesis by auto
    next
      case (Some orig)
      then have o: "orig \<in> set files" "name orig = replace_pattern (name f)"
        "parentPath f = parentPath orig"
        by (auto simp: find_Some_iff)
      from Some True Cons.prems
      have "p \<in> set (conflictLoop files rest (acc @ [\<lparr>originalFile = orig, syncConflictFile = f\<rparr>]))"
        by simp
      from Cons.IH[OF this] show ?thesis using o True by auto
    qed
  qed
qed

lemma findSyncConflicts_sound:
  assumes "p \<in> set (findSyncConflicts v)"
  shows "syncConflictFile p \<in> set (getMarkdownFiles v)"
    and "originalFile p \<in> set (getMarkdownFiles v)"
    and "includes_str (name (syncConflictFile p)) ''sync-conflict''"
    and "name (originalFile p) = replace_pattern (name (syncConflictFile p))"
    and "parentPath (syncConflictFile p) = parentPath (originalFile p)"
  using conflictLoop_sound[of p "getMarkdownFiles v" "getMarkdownFiles v" "[]"] assms
  by (simp_all add: findSyncConflicts_def Let_def)

text \<open>
  Claim C1: every pair emitted by the matcher has a conflict name that matches the
  sync-conflict pattern, the stripped conflict name equal to the original's name, and
  equal parent paths. The second and third part hold (\<open>findSyncConflicts_sound\<close>); the
  first does not. The loop tests \<^verbatim>\<open>includes('sync-conflict')\<close> only, and \<^verbatim>\<open>replace\<close> leaves
  a name without a tag unchanged, so the search for the original finds the file itself.
  The note \<^verbatim>\<open>sync-conflict-notes.md\<close>, alone in the vault, is paired with itself, and its
  name has no match of the pattern.
\<close>

theorem findSyncConflicts_pairs_marker_note_with_itself:
  "findSyncConflicts (vaultOf [markerNote] []) =
     [\<lparr>originalFile = markerNote, syncConflictFile = markerNote\<rparr>]
   \<and> \<not> hasMatch (name markerNote)"
  by code_simp

text \<open>
  Claim C4, as stated: for a name that contains the marker, the candidate original name
  is the name without a trailing tag. The pattern is not anchored at the end of the name,
  and the sync tool puts the tag before the extension: for
  \<^verbatim>\<open>Notes.sync-conflict-20240101-120000-ABC123.md\<close> the candidate is \<^verbatim>\<open>Notes.md\<close>, which is
  not the name with a suffix removed.
\<close>

theorem originalFileName_not_a_suffix_removal:
  "includes_str ''Notes.sync-conflict-20240101-120000-ABC123.md'' ''sync-conflict''
   \<and> replace_pattern ''Notes.sync-conflict-20240101-120000-ABC123.md'' = ''Notes.md''
   \<and> \<not> removesSuffix ''Notes.sync-conflict-20240101-120000-ABC123.md''
         (replace_pattern ''Notes.sync-conflict-20240101-120000-ABC123.md'')"
  by code_simp

text \<open>
  Claim C4, amended: for a name in which the pattern matches, the candidate original name
  is the name with the leftmost tag removed, wherever in the name it is: the name is
  \<open>pre @ seg @ post\<close> with \<open>seg\<close> a tag, no match begins inside \<open>pre\<close>, \<open>post\<close> does not
  begin with a token character, and the candidate is \<open>pre @ post\<close>. Such a name
  contains the marker.
\<close>

theorem originalFileName_removes_leftmost_tag:
  assumes "hasMatch n"
  shows "includes_str n ''sync-conflict''
     \<and> (\<exists>pre seg post. n = pre @ seg @ post \<and> conflictTag seg
           \<and> replace_pattern n = pre @ post
           \<and> (\<forall>k<length pre. matchAt (drop k n) = None)
           \<and> (post = [] \<or> \<not> is_token_char (hd post)))"
  using assms hasMatch_includes replace_pattern_decomp by blast

theorem originalFileName_removes_leftmost_tag_witness:
  "hasMatch ''Notes.sync-conflict-20240101-120000-ABC123.md''
   \<and> includes_str ''Notes.sync-conflict-20240101-120000-ABC123.md'' ''sync-conflict''
   \<and> (\<exists>pre seg post. ''Notes.sync-conflict-20240101-120000-ABC123.md'' = pre @ seg @ post
         \<and> conflictTag seg
         \<and> replace_pattern ''Notes.sync-conflict-20240101-120000-ABC123.md'' = pre @ post)"
proof -
  have h: "hasMatch ''Notes.sync-conflict-20240101-120000-ABC123.md''" by code_simp
  from originalFileName_removes_leftmost_tag[OF h] h show ?thesis by blast
qed

text \<open>
  Claim C9: the matcher works on the array \<^verbatim>\<open>getMarkdownFiles()\<close> returns and on nothing
  else, so a file that is not in that array is neither the original nor the conflict
  file of any pair, whatever other files the vault holds.
\<close>

theorem findSyncConflicts_markdown_only:
  assumes "f \<notin> set (getMarkdownFiles v)" and "p \<in> set (findSyncConflicts v)"
  shows "originalFile p \<noteq> f \<and> syncConflictFile p \<noteq> f"
  using assms findSyncConflicts_sound(1,2) by blast

text \<open>
  The vault holds \<^verbatim>\<open>Sheet.csv\<close> and a conflict copy of it beside a note and its conflict
  copy; only the note is paired.
\<close>

theorem findSyncConflicts_markdown_only_witness:
  "sheetConflict \<notin> set (getMarkdownFiles (vaultOf [notesFile, notesConflict] [sheetFile, sheetConflict]))
   \<and> \<lparr>originalFile = notesFile, syncConflictFile = notesConflict\<rparr>
       \<in> set (findSyncConflicts (vaultOf [notesFile, notesConflict] [sheetFile, sheetConflict]))
   \<and> originalFile \<lparr>originalFile = notesFile, syncConflictFile = notesConflict\<rparr> \<noteq> sheetConflict
   \<and> syncConflictFile \<lparr>originalFile = notesFile, syncConflictFile = notesConflict\<rparr> \<noteq> sheetConflict
   \<and> findSyncConflicts (vaultOf [notesFile, notesConflict] [sheetFile, sheetConflict])
       = [\<lparr>originalFile = notesFile, syncConflictFile = notesConflict\<rparr>]"
proof -
  have a: "sheetConflict \<notin> set (getMarkdownFiles (vaultOf [notesFile, notesConflict] [sheetFile, sheetConflict]))"
    by code_simp
  have b: "findSyncConflicts (vaultOf [notesFile, notesConflict] [sheetFile, sheetConflict])
       = [\<lparr>originalFile = notesFile, syncConflictFile = notesConflict\<rparr>]"
    by code_simp
  then have c: "\<lparr>originalFile = notesFile, syncConflictFile = notesConflict\<rparr>
       \<in> set (findSyncConflicts (vaultOf [notesFile, notesConflict] [sheetFile, sheetConflict]))"
    by simp
  from findSyncConflicts_markdown_only[OF a c] a b c show ?thesis by simp
qed

section \<open>Properties of the comparison view\<close>

lemma viewLog_openDifferencesView [simp]:
  "viewLog (openDifferencesView vs st) = viewLog st @ [vs]"
  by (simp add: openDifferencesView_def detachLeavesOfType_def getLeaf_def setViewState_def
      revealLeaf_def)

lemma localStorage_openDifferencesView [simp]:
  "localStorage (openDifferencesView vs st) = localStorage st"
  by (simp add: openDifferencesView_def detachLeavesOfType_def getLeaf_def setViewState_def
      revealLeaf_def)

lemma notices_openDifferencesView [simp]:
  "notices (openDifferencesView vs st) = notices st"
  by (simp add: openDifferencesView_def detachLeavesOfType_def getLeaf_def setViewState_def
      revealLeaf_def)

lemma differencesLeaves_openDifferencesView:
  "differencesLeaves (openDifferencesView vs st) =
     [\<lparr>leaf_type = VIEW_TYPE_DIFFERENCES, leaf_active = True, leaf_state = Some vs,
       leaf_revealed = True\<rparr>]"
  by (simp add: openDifferencesView_def detachLeavesOfType_def getLeaf_def setViewState_def
      revealLeaf_def differencesLeaves_def emptyLeaf_def)

text \<open>
  Claim C8: after two successive calls of \<^verbatim>\<open>openDifferencesView\<close> the workspace has exactly
  one comparison leaf, and it holds the state of the second call; after one call it has
  exactly one as well, whatever the workspace held before.
\<close>

theorem openDifferencesView_single_view:
  "differencesLeaves (openDifferencesView s2 (openDifferencesView s1 st))
     = [\<lparr>leaf_type = VIEW_TYPE_DIFFERENCES, leaf_active = True, leaf_state = Some s2,
         leaf_revealed = True\<rparr>]
   \<and> length (differencesLeaves (openDifferencesView s1 st)) = 1"
  by (simp add: differencesLeaves_openDifferencesView)

section \<open>Properties of the sequential review\<close>


lemma reviewLoop_prefix:
  "\<exists>n\<le>length q. viewLog (snd (reviewLoop answer i q st)) = viewLog st @ map reviewState (take n q)
     \<and> (\<forall>k<length q. answer (i + k) = Some False \<longrightarrow> n \<le> Suc k)"
proof (induction q arbitrary: i st)
  case Nil
  then show ?case by simp
next
  case (Cons p q)
  let ?st1 = "openDifferencesView (reviewState p) st"
  show ?case
  proof (cases "answer i = Some True")
    case False
    then have "viewLog (snd (reviewLoop answer i (p # q) st)) = viewLog st @ map reviewState (take 1 (p # q))"
      by (cases "answer i") (auto simp: Let_def)
    then show ?thesis by (intro exI[of _ 1]) simp
  next
    case True
    from Cons.IH[of "Suc i" ?st1] obtain n where
      n: "n \<le> length q"
         "viewLog (snd (reviewLoop answer (Suc i) q ?st1)) = viewLog ?st1 @ map reviewState (take n q)"
         "\<forall>k<length q. answer (Suc i + k) = Some False \<longrightarrow> n \<le> Suc k"
      by blast
    have v: "viewLog (snd (reviewLoop answer i (p # q) st)) = viewLog st @ map reviewState (take (Suc n) (p # q))"
      using True n(2) by (simp add: Let_def)
    have "\<forall>k<length (p # q). answer (i + k) = Some False \<longrightarrow> Suc n \<le> Suc k"
    proof (intro allI impI)
      fix k assume k: "k < length (p # q)" "answer (i + k) = Some False"
      with True obtain k' where k': "k = Suc k'" by (cases k) auto
      with k n(3) show "Suc n \<le> Suc k" by auto
    qed
    with v n(1) show ?thesis by (intro exI[of _ "Suc n"]) simp
  qed
qed



text \<open>
  Claim C3: when the view of the pair at position \<open>i\<close> answers \<^verbatim>\<open>false\<close>, the views the
  command opens are those of the first \<open>n\<close> pairs of the queue for some \<open>n \<le> i + 1\<close>:
  no view is opened for a pair after position \<open>i\<close>, however long the queue is.
\<close>

theorem sequential_review_stops_on_false:
  assumes "i < length (findSyncConflicts v)" and "answer i = Some False"
  shows "\<exists>n\<le>Suc i. viewLog (snd (find_sync_conflicts_and_merge v m answer st))
           = viewLog st @ map reviewState (take n (findSyncConflicts v))"
proof -
  have r: "\<exists>n\<le>Suc i. viewLog (snd (reviewAll v answer s)) = viewLog s @ map reviewState (take n (findSyncConflicts v))" for s
    using reviewLoop_prefix[of "findSyncConflicts v" answer 0 s] assms
    by (auto simp: reviewAll_def)
  have z: "viewLog s = viewLog st \<Longrightarrow> viewLog s = viewLog st @ map reviewState (take 0 (findSyncConflicts v))" for s
    by simp
  show ?thesis
  proof (cases "truthyItem (localStorage st fileDiffMergeWarningKey)")
    case True
    then show ?thesis using r[of st] by (simp add: find_sync_conflicts_and_merge_def)
  next
    case False
    show ?thesis
    proof (cases m)
      case NeverCallsOnAccept
      with False show ?thesis
        by (intro exI[of _ 0]) (simp add: find_sync_conflicts_and_merge_def showRiskyActionModal_def)
    next
      case (CallsOnAccept eo)
      show ?thesis
      proof (cases eo)
        case (Some e)
        with False CallsOnAccept show ?thesis
          by (intro exI[of _ 0]) (simp add: find_sync_conflicts_and_merge_def showRiskyActionModal_def)
      next
        case None
        let ?st1 = "st\<lparr>localStorage := (localStorage st)(fileDiffMergeWarningKey \<mapsto> ''true'')\<rparr>"
        have t: "truthyItem (localStorage ?st1 fileDiffMergeWarningKey)"
          by (simp add: truthyItem_def)
        from r[of ?st1] False None CallsOnAccept t show ?thesis
          by (simp add: find_sync_conflicts_and_merge_def showRiskyActionModal_def)
      qed
    qed
  qed
qed

theorem sequential_review_stops_on_false_witness:
  "0 < length (findSyncConflicts reviewVault) \<and> stopAt 0 0 = Some False
   \<and> viewLog (snd (find_sync_conflicts_and_merge reviewVault (CallsOnAccept None)
                      (stopAt 0) emptyState))
       = [reviewState \<lparr>originalFile = notesFile, syncConflictFile = notesConflict\<rparr>]"
proof -
  have q: "findSyncConflicts reviewVault
      = [\<lparr>originalFile = notesFile, syncConflictFile = notesConflict\<rparr>,
         \<lparr>originalFile = todoFile, syncConflictFile = todoConflict\<rparr>]"
    by code_simp
  then have l: "0 < length (findSyncConflicts reviewVault)" by simp
  have a: "stopAt 0 0 = Some False" by (simp add: stopAt_def)
  from sequential_review_stops_on_false[of 0 reviewVault "stopAt 0" "CallsOnAccept None" emptyState, OF l a]
  obtain n where "n \<le> Suc 0"
    "viewLog (snd (find_sync_conflicts_and_merge reviewVault (CallsOnAccept None) (stopAt 0) emptyState))
       = viewLog emptyState @ map reviewState (take n (findSyncConflicts reviewVault))"
    by blast
  moreover have "viewLog (snd (find_sync_conflicts_and_merge reviewVault (CallsOnAccept None)
                      (stopAt 0) emptyState))
       = [reviewState \<lparr>originalFile = notesFile, syncConflictFile = notesConflict\<rparr>]"
    by (simp add: find_sync_conflicts_and_merge_def reviewAll_def q showRiskyActionModal_def
        emptyState_def truthyItem_def stopAt_def Let_def)
  ultimately show ?thesis using l a by simp
qed

text \<open>
  Claim C7, as stated: when the dialog fails, the gate resolves \<^verbatim>\<open>false\<close>, that is, the
  command returns at line 96. It does not: \<^verbatim>\<open>showRiskyActionModal\<close> rejects its promise
  with the dialog's error, \<^verbatim>\<open>await\<close> throws it, and the command's promise is rejected.
\<close>

theorem gate_rejects_on_dialog_error:
  "fst (find_sync_conflicts_and_merge reviewVault (CallsOnAccept (Some dialogError))
          alwaysContinue emptyState) = Rejected dialogError
   \<and> fst (find_sync_conflicts_and_merge reviewVault (CallsOnAccept (Some dialogError))
          alwaysContinue emptyState) \<noteq> Resolved ()"
  by (simp add: find_sync_conflicts_and_merge_def showRiskyActionModal_def emptyState_def
      truthyItem_def)

text \<open>
  Claim C7, amended: when the flag is unset and the dialog does anything but report
  acceptance, the command changes nothing: no comparison view is opened and the flag
  stays unset. The command does not return: its promise is rejected with the dialog's
  error, or stays pending when the dialog never calls \<^verbatim>\<open>onAccept\<close>.
\<close>

theorem gate_blocks_without_acceptance:
  assumes "\<not> truthyItem (localStorage st fileDiffMergeWarningKey)"
    and "m \<noteq> CallsOnAccept None"
  shows "snd (find_sync_conflicts_and_merge v m answer st) = st
     \<and> fst (find_sync_conflicts_and_merge v m answer st)
         = (case m of CallsOnAccept (Some e) \<Rightarrow> Rejected e | _ \<Rightarrow> Pending)"
  using assms
  by (cases m)
     (auto simp: find_sync_conflicts_and_merge_def showRiskyActionModal_def split: option.splits)

theorem gate_blocks_without_acceptance_witness:
  "\<not> truthyItem (localStorage emptyState fileDiffMergeWarningKey)
   \<and> NeverCallsOnAccept \<noteq> CallsOnAccept None
   \<and> snd (find_sync_conflicts_and_merge reviewVault NeverCallsOnAccept alwaysContinue emptyState)
       = emptyState
   \<and> fst (find_sync_conflicts_and_merge reviewVault NeverCallsOnAccept alwaysContinue emptyState)
       = Pending"
proof -
  have a: "\<not> truthyItem (localStorage emptyState fileDiffMergeWarningKey)"
    by (simp add: emptyState_def truthyItem_def)
  have b: "NeverCallsOnAccept \<noteq> CallsOnAccept None" by simp
  from gate_blocks_without_acceptance[OF a b, of reviewVault alwaysContinue] a b
  show ?thesis by simp
qed

section \<open>Properties of the indexed spec loader\<close>

lemma leaves_newNotice [simp]: "leaves (newNotice m t st) = leaves st"
  and viewLog_newNotice [simp]: "viewLog (newNotice m t st) = viewLog st"
  and notices_newNotice [simp]: "notices (newNotice m t st) = notices st @ [(m, t)]"
  and console_newNotice [simp]: "console (newNotice m t st) = console st"
  by (simp_all add: newNotice_def)

lemma leaves_console_log [simp]: "leaves (console_log a st) = leaves st"
  and viewLog_console_log [simp]: "viewLog (console_log a st) = viewLog st"
  and notices_console_log [simp]: "notices (console_log a st) = notices st"
  and leaves_console_error [simp]: "leaves (console_error a st) = leaves st"
  and viewLog_console_error [simp]: "viewLog (console_error a st) = viewLog st"
  and notices_console_error [simp]: "notices (console_error a st) = notices st"
  by (simp_all add: console_log_def console_error_def)






text \<open>
  Claim C10, as stated: a spec file with well-formed JSON that lacks \<^verbatim>\<open>file1\<close> is reported
  as a file not found, not through the error handler. For the text \<^verbatim>\<open>null\<close> the read of
  \<^verbatim>\<open>spec.file1\<close> throws, and the \<^verbatim>\<open>catch\<close> block reports the thrown message.
\<close>

theorem null_spec_reported_by_catch:
  "adapter_read nullSpecVault ''temp/obsidian-diff/diff-spec-3.json'' = Inr ''null''
   \<and> parseExample ''null'' = Inr JNull
   \<and> fst (tryBlock 3 nullSpecVault parseExample emptyState) = Some (nullPropertyError ''file1'')
   \<and> notices (snd (compare_indexed 3 nullSpecVault parseExample emptyState))
       = [(''File Diff Index 3: Loading spec...'', None),
          (''File Diff Index 3: Files loaded'', None),
          (''File Diff Index 3: ERROR - '' @ message (nullPropertyError ''file1''), Some 5000)]"
proof -
  have t: "noticeTag 3 = ''File Diff Index 3''" by code_simp
  show ?thesis
    by (simp add: compare_indexed_def tryBlock_def catchBlock_def Let_def nullSpecVault_def
      readNull_def parseExample_def spec3Content_def emptyState_def t)
qed

text \<open>
  Claim C10, amended: for an index below 10 and a spec file whose content parses to a
  value other than \<^verbatim>\<open>null\<close>, on a host that resolves the undefined path to nothing:
  when \<^verbatim>\<open>file1\<close> is absent the command shows \<^verbatim>\<open>File 1 not found: undefined\<close>; when
  \<^verbatim>\<open>file1\<close> resolves and \<^verbatim>\<open>file2\<close> is absent it shows \<^verbatim>\<open>File 2 not found: undefined\<close>.
  In both cases nothing is thrown and no view is opened.
\<close>

theorem compare_indexed_missing_field:
  assumes "i < 10"
    and "adapter_read v (DIFF_SPEC_BASE_PATH @ show_nat i @ ''.json'') = Inr specContent"
    and "parse specContent = Inr spec"
    and "spec \<noteq> JNull"
    and "getAbstractFileByPath v Undefined = None"
  shows "(get_field spec ''file1'' = Inr Undefined \<longrightarrow>
           fst (tryBlock i v parse st) = None
           \<and> notices (snd (compare_indexed i v parse st))
               = notices st @
                 [(noticeTag i @ '': Loading spec...'', None),
                  (noticeTag i @ '': Files loaded'', None),
                  (noticeTag i @ '': ERROR - File 1 not found: undefined'', Some 5000)]
           \<and> viewLog (snd (compare_indexed i v parse st)) = viewLog st
           \<and> leaves (snd (compare_indexed i v parse st)) = leaves st)
     \<and> (\<forall>path1. get_field spec ''file1'' = Inr path1
           \<and> getAbstractFileByPath v path1 \<noteq> None
           \<and> get_field spec ''file2'' = Inr Undefined \<longrightarrow>
           fst (tryBlock i v parse st) = None
           \<and> notices (snd (compare_indexed i v parse st))
               = notices st @
                 [(noticeTag i @ '': Loading spec...'', None),
                  (noticeTag i @ '': Files loaded'', None),
                  (noticeTag i @ '': ERROR - File 2 not found: undefined'', Some 5000)]
           \<and> viewLog (snd (compare_indexed i v parse st)) = viewLog st
           \<and> leaves (snd (compare_indexed i v parse st)) = leaves st)"
proof -
  from assms(4) obtain p2 where p2: "get_field spec ''file2'' = Inr p2"
    by (cases spec) auto
  show ?thesis
    using assms(2,3,5) p2
    by (auto simp: compare_indexed_def tryBlock_def Let_def to_string_def)
qed

text \<open>The spec file of index 3 holds \<^verbatim>\<open>{}\<close>.\<close>

theorem compare_indexed_missing_field_witness:
  "(3::nat) < 10
   \<and> adapter_read emptySpecVault (DIFF_SPEC_BASE_PATH @ show_nat 3 @ ''.json'') = Inr ''{}''
   \<and> parseExample ''{}'' = Inr (JObj [])
   \<and> JObj [] \<noteq> JNull
   \<and> getAbstractFileByPath emptySpecVault Undefined = None
   \<and> get_field (JObj []) ''file1'' = Inr Undefined
   \<and> fst (tryBlock 3 emptySpecVault parseExample emptyState) = None
   \<and> notices (snd (compare_indexed 3 emptySpecVault parseExample emptyState))
       = [(''File Diff Index 3: Loading spec...'', None),
          (''File Diff Index 3: Files loaded'', None),
          (''File Diff Index 3: ERROR - File 1 not found: undefined'', Some 5000)]
   \<and> viewLog (snd (compare_indexed 3 emptySpecVault parseExample emptyState)) = []"
proof -
  have i: "(3::nat) < 10" by simp
  have r: "adapter_read emptySpecVault (DIFF_SPEC_BASE_PATH @ show_nat 3 @ ''.json'') = Inr ''{}''"
    by (simp add: emptySpecVault_def readEmptyObject_def)
  have p: "parseExample ''{}'' = Inr (JObj [])"
    by (simp add: parseExample_def spec3Content_def)
  have n: "JObj [] \<noteq> JNull" by simp
  have u: "getAbstractFileByPath emptySpecVault Undefined = None"
    by (simp add: emptySpecVault_def resolveIn_def)
  have f: "get_field (JObj []) ''file1'' = Inr Undefined" by simp
  have t: "noticeTag 3 = ''File Diff Index 3''" by code_simp
  from compare_indexed_missing_field[where i=3 and v=emptySpecVault and parse=parseExample
      and st=emptyState, OF i r p n u] i r p n u f t
  show ?thesis by (simp add: emptyState_def)
qed

end
